theory Spec2Isabelle
  imports Complex_Main "HOL-Library.Sublist" "HOL-Library.Log_Nat"
begin

section \<open>Python values used by the cart and checkout code\<close>

text \<open>
  The shop's amounts (\<open>price\<close>, \<open>total\<close>, \<open>advance_amount\<close>, \<open>balance_amount\<close>) are
  Python floats. A float is modelled as the rational number it denotes. Arithmetic on
  amounts is exact here, except for the subtraction in the advance-payment dialog, which
  is rounded as Python rounds it (section "Python floats"). Quantities and stock levels
  are Python ints, modelled as \<open>int\<close>. Exceptions are values of \<open>py_exn\<close>; a computation that can raise returns
  \<open>py_exn + 'a\<close> with \<open>Inl\<close> for the exception. \<open>RenderError\<close> stands for whatever the
  PDF library raises while the invoice is built.
\<close>

datatype py_exn = IndexError | ValueError | TypeError | OSError | RenderError

text \<open>\<open>xs[i]\<close> on a Python list: negative indices count from the end.\<close>

definition py_index :: "'a list \<Rightarrow> int \<Rightarrow> py_exn + 'a" where
  "py_index xs i =
     (if 0 \<le> i \<and> i < int (length xs) then Inr (xs ! nat i)
      else if i < 0 \<and> - int (length xs) \<le> i then Inr (xs ! nat (int (length xs) + i))
      else Inl IndexError)"

text \<open>\<open>int(x)\<close> on a float truncates towards zero.\<close>

definition py_trunc :: "rat \<Rightarrow> int" where
  "py_trunc x = (if 0 \<le> x then \<lfloor>x\<rfloor> else \<lceil>x\<rceil>)"

text \<open>\<open>round(x)\<close> with one argument rounds to the nearest integer, ties to the even one.\<close>

definition py_round :: "rat \<Rightarrow> int" where
  "py_round x =
     (let f = \<lfloor>x\<rfloor>; d = x - of_int f
      in if d < 1 / 2 then f
         else if 1 / 2 < d then f + 1
         else if even f then f else f + 1)"

text \<open>\<open>str(n)\<close> on an int: its decimal digits, with a minus sign when negative.\<close>

fun str_nat :: "nat \<Rightarrow> string" where
  "str_nat n =
     (if n < 10 then [''0123456789'' ! n]
      else str_nat (n div 10) @ [''0123456789'' ! (n mod 10)])"

declare str_nat.simps [simp del]

definition py_str :: "int \<Rightarrow> string" where
  "py_str i = (if i < 0 then CHR ''-'' # str_nat (nat (- i)) else str_nat (nat i))"

text \<open>\<open>s.strip()\<close> removes leading and trailing whitespace.\<close>

definition py_isspace :: "char \<Rightarrow> bool" where
  "py_isspace c \<longleftrightarrow> c \<in> set [CHR '' '', CHR 0x09, CHR 0x0A, CHR 0x0B, CHR 0x0C, CHR 0x0D,
                               CHR 0x1C, CHR 0x1D, CHR 0x1E, CHR 0x1F]"

definition strip :: "string \<Rightarrow> string" where
  "strip s = rev (dropWhile py_isspace (rev (dropWhile py_isspace s)))"

section \<open>Python floats\<close>

text \<open>
  A Python float is an IEEE 754 double; a finite one is the rational number it denotes.
  \<open>float_round x\<close> is the double nearest to \<open>x\<close>, ties going to the even significand:
  the significand has 53 bits, and below \<open>2 ^ (-1022)\<close> the doubles are the multiples of
  \<open>2 ^ (-1074)\<close>. A float subtraction \<open>a - b\<close> is \<open>float_round\<close> of the exact
  difference, and a number typed as decimal text becomes \<open>float_round\<close> of it. Results
  of magnitude \<open>2 ^ 1024\<close> or more, which Python turns into \<open>inf\<close>, are outside the
  model. \<open>ilog2 x\<close> is the exponent of a positive \<open>x\<close>: \<open>2 ^ ilog2 x \<le> x < 2 ^ (ilog2 x + 1)\<close>.
\<close>

definition ilog2 :: "rat \<Rightarrow> int" where
  "ilog2 x =
     (case quotient_of x of
        (p, q) \<Rightarrow>
          (let k = bitlen p - bitlen q
           in if power_int 2 k \<le> x then k else k - 1))"

definition float_round :: "rat \<Rightarrow> rat" where
  "float_round x =
     (if x = 0 then 0
      else
        (let e = max (ilog2 \<bar>x\<bar>) (- 1022);
             quantum = power_int 2 (e - 52)
         in of_int (py_round (x / quantum)) * quantum))"

section \<open>Amount in words: \<open>PDFGenerator.number_to_words\<close>\<close>

definition units :: "string list" where
  "units = ['''', ''One'', ''Two'', ''Three'', ''Four'', ''Five'', ''Six'', ''Seven'',
            ''Eight'', ''Nine'']"

definition teens :: "string list" where
  "teens = [''Ten'', ''Eleven'', ''Twelve'', ''Thirteen'', ''Fourteen'', ''Fifteen'',
            ''Sixteen'', ''Seventeen'', ''Eighteen'', ''Nineteen'']"

definition tens :: "string list" where
  "tens = ['''', '''', ''Twenty'', ''Thirty'', ''Forty'', ''Fifty'', ''Sixty'', ''Seventy'',
           ''Eighty'', ''Ninety'']"

text \<open>
  The inner helper of \<open>number_to_words\<close>. A number of three or more digits has
  \<open>ten \<ge> len(tens)\<close> and is returned as its decimal digits by the last branch.
\<close>

definition convert_two_digits :: "int \<Rightarrow> py_exn + string" where
  "convert_two_digits num =
     (if num < 10 then py_index units num
      else if num < 20 then py_index teens (num - 10)
      else
        let ten = num div 10; unit = num mod 10
        in if ten < int (length tens) then
             (case py_index tens ten of
                Inl e \<Rightarrow> Inl e
              | Inr t \<Rightarrow>
                  (if unit > 0 then
                     (case py_index units unit of
                        Inl e \<Rightarrow> Inl e
                      | Inr u \<Rightarrow> Inr (t @ '' '' @ u))
                   else Inr t))
           else Inr (py_str num))"

text \<open>\<open>rupees = int(n)\<close> and \<open>paise = int(round((n - rupees) * 100))\<close>.\<close>

definition rupees_of :: "rat \<Rightarrow> int" where
  "rupees_of n = py_trunc n"

definition paise_of :: "rat \<Rightarrow> int" where
  "paise_of n = py_round ((n - of_int (rupees_of n)) * 100)"

text \<open>The \<open>if rupees == 0 ... else\<close> chain that renders the major unit.\<close>

definition rupees_words :: "int \<Rightarrow> py_exn + string" where
  "rupees_words rupees =
     (if rupees = 0 then Inr ''''
      else if rupees < 100 then convert_two_digits rupees
      else if rupees < 1000 then
        (case py_index units (rupees div 100) of
           Inl e \<Rightarrow> Inl e
         | Inr h \<Rightarrow>
             (case convert_two_digits (rupees mod 100) of
                Inl e \<Rightarrow> Inl e
              | Inr r \<Rightarrow> Inr (h @ '' Hundred '' @ r)))
      else if rupees < 100000 then
        (case convert_two_digits (rupees div 1000) of
           Inl e \<Rightarrow> Inl e
         | Inr t \<Rightarrow>
             (case convert_two_digits (rupees mod 1000) of
                Inl e \<Rightarrow> Inl e
              | Inr r \<Rightarrow> Inr (t @ '' Thousand '' @ r)))
      else
        (case convert_two_digits (rupees div 100000) of
           Inl e \<Rightarrow> Inl e
         | Inr l \<Rightarrow>
             (case convert_two_digits (rupees mod 100000) of
                Inl e \<Rightarrow> Inl e
              | Inr r \<Rightarrow> Inr (l @ '' Lakh '' @ r))))"

definition number_to_words :: "rat \<Rightarrow> py_exn + string" where
  "number_to_words n =
     (if n = 0 then Inr ''Zero''
      else
        (case rupees_words (rupees_of n) of
           Inl e \<Rightarrow> Inl e
         | Inr result0 \<Rightarrow>
             (let result = strip result0 @ '' Rupees''
              in if paise_of n > 0 then
                   (case convert_two_digits (paise_of n) of
                      Inl e \<Rightarrow> Inl e
                    | Inr p \<Rightarrow> Inr (result @ '' and '' @ p @ '' Paise''))
                 else Inr result)))"

section \<open>Inventory store: \<open>Database\<close>\<close>

text \<open>
  A row of the \<open>products\<close> table as \<open>SELECT *\<close> returns it. The fields are in the column
  order of \<open>CREATE TABLE products\<close> in \<open>Database.init_db\<close>, and each field name carries
  its position in the fetched tuple: \<open>product[5]\<close> is \<open>c5_stock_quantity\<close> and
  \<open>product[6]\<close> is \<open>c6_is_available\<close>. The two numeric columns hold an integer or NULL
  (\<open>None\<close>); every writer in the repository stores an integer.
\<close>

record product_row =
  c0_id :: int
  c1_name :: string
  c2_description :: string
  c3_price_per_hour :: rat
  c4_image_path :: string
  c5_stock_quantity :: "int option"
  c6_is_available :: "int option"
  c7_created_at :: string

type_synonym database = "product_row list"

text \<open>\<open>SELECT * FROM products WHERE id = ?\<close> followed by \<open>fetchone()\<close>.\<close>

definition get_product :: "database \<Rightarrow> int \<Rightarrow> product_row option" where
  "get_product db product_id = find (\<lambda>r. c0_id r = product_id) db"

text \<open>
  \<open>update_product(product_id, stock=new_stock)\<close>: only \<open>stock\<close> is given, so the statement
  is \<open>UPDATE products SET stock_quantity = ? WHERE id = ?\<close>.
\<close>

definition update_product_stock :: "database \<Rightarrow> int \<Rightarrow> int \<Rightarrow> database" where
  "update_product_stock db product_id stock =
     map (\<lambda>r. if c0_id r = product_id then r\<lparr>c5_stock_quantity := Some stock\<rparr> else r) db"

text \<open>\<open>int(v)\<close> on a fetched numeric column: \<open>int(None)\<close> raises \<open>TypeError\<close>.\<close>

definition py_int :: "int option \<Rightarrow> py_exn + int" where
  "py_int v = (case v of None \<Rightarrow> Inl TypeError | Some i \<Rightarrow> Inr i)"

section \<open>The cart: \<open>CartWidget.cart_items\<close>\<close>

text \<open>
  A cart entry is the dict \<open>{'id', 'name', 'price', 'quantity'}\<close>; \<open>'price'\<close> holds the
  total of the line, not the unit price.
\<close>

record cart_item =
  item_id :: int
  item_name :: string
  item_price :: rat
  item_quantity :: int

datatype cart_msg =
    StockLimitReached
  | QuantityUpdated
  | OutOfStock
  | CartUpdated
  | ReplaceDeclined
  | AddedToCart

text \<open>
  \<open>add_to_cart(product_id, product_name, price, stock_available)\<close>. The argument
  \<open>reply\<close> is the answer to the "Replace Cart Item" question (\<open>True\<close> for Yes); it is
  asked only when the cart holds a different product. The result pairs the new cart with
  the message box that is shown.
\<close>

definition add_to_cart ::
  "cart_item list \<Rightarrow> int \<Rightarrow> string \<Rightarrow> rat \<Rightarrow> int \<Rightarrow> bool \<Rightarrow> cart_item list \<times> cart_msg" where
  "add_to_cart cart_items product_id product_name price stock_available reply =
     (case cart_items of
        current_item # rest \<Rightarrow>
          if item_id current_item = product_id then
            (let current_quantity = item_quantity current_item; unit_price = price
             in if current_quantity \<ge> stock_available then (cart_items, StockLimitReached)
                else
                  (let new_quantity = current_quantity + 1
                   in (current_item\<lparr>item_quantity := new_quantity,
                                     item_price := unit_price * of_int new_quantity\<rparr> # rest,
                       QuantityUpdated)))
          else if reply then
            (if stock_available \<le> 0 then (cart_items, OutOfStock)
             else ([\<lparr>item_id = product_id, item_name = product_name, item_price = price,
                     item_quantity = 1\<rparr>], CartUpdated))
          else (cart_items, ReplaceDeclined)
      | [] \<Rightarrow>
          if stock_available \<le> 0 then (cart_items, OutOfStock)
          else (cart_items @ [\<lparr>item_id = product_id, item_name = product_name,
                                item_price = price, item_quantity = 1\<rparr>], AddedToCart))"

text \<open>\<open>remove_from_cart(row)\<close>: \<open>pop(row)\<close> when \<open>0 <= row < len(cart_items)\<close>.\<close>

definition remove_from_cart :: "cart_item list \<Rightarrow> int \<Rightarrow> cart_item list" where
  "remove_from_cart cart_items row =
     (if 0 \<le> row \<and> row < int (length cart_items)
      then take (nat row) cart_items @ drop (Suc (nat row)) cart_items
      else cart_items)"

text \<open>\<open>clear_cart()\<close>; \<open>reply\<close> is the answer to the confirmation question.\<close>

definition clear_cart :: "cart_item list \<Rightarrow> bool \<Rightarrow> cart_item list" where
  "clear_cart cart_items reply =
     (if cart_items = [] then cart_items else if reply then [] else cart_items)"

datatype cart_op =
    AddToCart int string rat int bool
  | RemoveFromCart int
  | ClearCart bool

fun apply_cart_op :: "cart_item list \<Rightarrow> cart_op \<Rightarrow> cart_item list" where
  "apply_cart_op c (AddToCart product_id product_name price stock_available reply) =
     fst (add_to_cart c product_id product_name price stock_available reply)"
| "apply_cart_op c (RemoveFromCart row) = remove_from_cart c row"
| "apply_cart_op c (ClearCart reply) = clear_cart c reply"

text \<open>A session starts with \<open>cart_items = []\<close> and applies the user's actions in order.\<close>

definition run_cart_ops :: "cart_op list \<Rightarrow> cart_item list" where
  "run_cart_ops ops = foldl apply_cart_op [] ops"

section \<open>Payment plan: \<open>AdvancePaymentDialog\<close>\<close>

text \<open>
  The attributes of the dialog object. A date (\<open>QDate\<close>) is its day number.
  \<open>payment_type\<close> is not set by \<open>__init__\<close> (\<open>None\<close> here) and becomes \<open>"advance"\<close> or
  \<open>"full"\<close> on acceptance. \<open>advance_spin\<close> is the value of the amount field,
  \<open>due_date_edit\<close> the date shown by the date field and \<open>minimum_date\<close> its minimum, and
  \<open>dialog_code\<close> is what \<open>exec()\<close> returns once the dialog is closed.
\<close>

datatype dialog_code = Accepted | Rejected

record advance_dialog =
  total_amount :: rat
  advance_amount :: rat
  balance_amount :: rat
  payment_method :: string
  due_date :: int
  payment_type :: "string option"
  advance_spin :: rat
  due_date_edit :: int
  minimum_date :: int
  dialog_code :: "dialog_code option"

text \<open>The entries of \<open>payment_combo\<close>.\<close>

definition payment_methods :: "string list" where
  "payment_methods = [''Cash'', ''Credit Card'', ''Debit Card'', ''UPI'', ''Bank Transfer'']"

text \<open>
  \<open>__init__(total_amount)\<close> and \<open>setup_ui()\<close>, run on the day \<open>today\<close>: the amount field
  starts at 0 with the range \<open>0 .. total_amount\<close>, the date field at the default due date
  with \<open>today\<close> as its minimum.
\<close>

definition init_dialog :: "rat \<Rightarrow> int \<Rightarrow> advance_dialog" where
  "init_dialog total_amt today =
     \<lparr>total_amount = total_amt, advance_amount = 0, balance_amount = total_amt,
      payment_method = ''Cash'', due_date = today + 7, payment_type = None,
      advance_spin = 0, due_date_edit = today + 7, minimum_date = today,
      dialog_code = None\<rparr>"

definition on_payment_method_changed :: "advance_dialog \<Rightarrow> string \<Rightarrow> advance_dialog" where
  "on_payment_method_changed d method = d\<lparr>payment_method := method\<rparr>"

text \<open>
  \<open>on_advance_changed(value)\<close>: \<open>self.total_amount - value\<close> is a float subtraction.
\<close>

definition on_advance_changed :: "advance_dialog \<Rightarrow> rat \<Rightarrow> advance_dialog" where
  "on_advance_changed d v =
     d\<lparr>advance_amount := v, balance_amount := float_round (total_amount d - v)\<rparr>"

text \<open>
  \<open>accept_advance()\<close>: its only check is \<open>advance_amount <= 0\<close>, which shows the
  "Invalid Amount" warning (\<open>True\<close> in the first component) and leaves the dialog open.
\<close>

definition accept_advance :: "advance_dialog \<Rightarrow> bool \<times> advance_dialog" where
  "accept_advance d =
     (if advance_amount d \<le> 0 then (True, d)
      else (False, d\<lparr>due_date := due_date_edit d, payment_type := Some ''advance'',
                     dialog_code := Some Accepted\<rparr>))"

definition accept_full :: "advance_dialog \<Rightarrow> advance_dialog" where
  "accept_full d =
     d\<lparr>advance_amount := total_amount d, balance_amount := 0, payment_type := Some ''full'',
       dialog_code := Some Accepted\<rparr>"

definition reject :: "advance_dialog \<Rightarrow> advance_dialog" where
  "reject d = d\<lparr>dialog_code := Some Rejected\<rparr>"

text \<open>
  What the user does while the dialog is open. \<open>AdvanceValueChanged v\<close>: the amount \<open>v\<close>
  is entered in the amount field. The field holds the float of it, kept within the range
  given by \<open>setRange(0, self.total_amount)\<close> (a range whose maximum is below its minimum
  is the minimum alone), and \<open>valueChanged\<close> calls \<open>on_advance_changed\<close> when the value
  of the field has changed. \<open>MethodIndexChanged i\<close>: entry \<open>i\<close> of the method box is
  selected. \<open>DueDateEdited x\<close>: the date \<open>x\<close> is entered in the date field, which keeps it
  at or after the date given by \<open>setMinimumDate\<close>. The other three are the buttons.
\<close>

datatype dialog_event =
    AdvanceValueChanged rat
  | MethodIndexChanged nat
  | DueDateEdited int
  | ProceedClicked
  | FullClicked
  | CancelClicked

fun handle_event :: "advance_dialog \<Rightarrow> dialog_event \<Rightarrow> advance_dialog" where
  "handle_event d (AdvanceValueChanged v) =
     (let v' = max 0 (min (float_round v) (max 0 (total_amount d)))
      in if v' = advance_spin d then d
         else on_advance_changed (d\<lparr>advance_spin := v'\<rparr>) v')"
| "handle_event d (MethodIndexChanged i) =
     (if i < length payment_methods then on_payment_method_changed d (payment_methods ! i)
      else d)"
| "handle_event d (DueDateEdited x) = d\<lparr>due_date_edit := max x (minimum_date d)\<rparr>"
| "handle_event d ProceedClicked = snd (accept_advance d)"
| "handle_event d FullClicked = accept_full d"
| "handle_event d CancelClicked = reject d"

text \<open>
  \<open>exec()\<close>: events are handled until one of them closes the dialog; when the user
  closes the window instead, the dialog is rejected.
\<close>

fun exec_dialog :: "advance_dialog \<Rightarrow> dialog_event list \<Rightarrow> advance_dialog" where
  "exec_dialog d [] = reject d"
| "exec_dialog d (e # es) =
     (let d' = handle_event d e
      in if dialog_code d' = None then exec_dialog d' es else d')"

text \<open>
  What holds of the dialog for a total \<open>t\<close>, opened on the day \<open>day\<close>, after any events:
  the fields stay within their ranges, and while the dialog is open the amounts are those
  of \<open>__init__\<close> or those set by the last \<open>on_advance_changed\<close>.
\<close>

definition dialog_inv :: "rat \<Rightarrow> int \<Rightarrow> advance_dialog \<Rightarrow> bool" where
  "dialog_inv t day d \<longleftrightarrow>
     total_amount d = t \<and> minimum_date d = day \<and> day \<le> due_date_edit d
     \<and> 0 \<le> advance_spin d \<and> advance_spin d \<le> max 0 t
     \<and> (dialog_code d = None \<longrightarrow>
          payment_type d = None \<and> advance_amount d = advance_spin d
          \<and> (advance_amount d = 0 \<and> balance_amount d = t
              \<or> balance_amount d = float_round (t - advance_amount d)))"

section \<open>Checkout: \<open>CartWidget.checkout\<close> and \<open>CartWidget.process_advance_payment\<close>\<close>

text \<open>The keyword arguments of a call of \<open>PDFGenerator.generate_invoice\<close>.\<close>

record invoice_args =
  inv_cart_items :: "cart_item list"
  inv_total_amount :: rat
  inv_payment_type :: "string option"
  inv_advance_amount :: rat
  inv_balance_amount :: rat
  inv_due_date :: "int option"
  inv_customer_name :: string
  inv_customer_address :: string
  inv_customer_phone :: string
  inv_customer_email :: string
  inv_payment_method :: string
  inv_file_path :: string

text \<open>
  What a checkout attempt meets outside the cart and the store: the customer dialog
  (\<open>get_customer_info\<close>, \<open>None\<close> when cancelled), the save-file dialog (the empty path
  when cancelled), the document renderer (\<open>generate_invoice\<close>, which returns the path
  of the file or raises), the answer to "Do you want to open the PDF?", the program that
  opens the file (\<open>Some e\<close> when it raises \<open>e\<close>), the events of the advance-payment
  dialog, and the current date.
\<close>

record environment =
  customer_info :: "(string \<times> string \<times> string \<times> string) option"
  save_file_name :: string
  generate_invoice :: "invoice_args \<Rightarrow> py_exn + string"
  open_reply :: bool
  open_pdf :: "string \<Rightarrow> py_exn option"
  dialog_events :: "dialog_event list"
  today :: int

record shop =
  cart_items :: "cart_item list"
  db :: database

datatype checkout_outcome =
    EmptyCart
  | StockIssue string int int
  | StockCheckFailed string
  | PlanCancelled
  | CustomerInfoCancelled
  | SaveCancelled
  | RenderFailed py_exn invoice_args
  | OpenFailed py_exn invoice_args
  | PaymentSuccessful string invoice_args

text \<open>
  The loop "Check stock availability before checkout", the same in both checkout
  methods: it reads \<open>product[6]\<close> of the freshly fetched row and compares it with the
  quantity in the cart. A product that is no longer in the table is skipped. The
  result is the warning that stops the checkout, if any: \<open>StockIssue name available
  requested\<close>, or \<open>StockCheckFailed name\<close> when \<open>int()\<close> raises.
\<close>

fun check_stock :: "database \<Rightarrow> cart_item list \<Rightarrow> checkout_outcome option" where
  "check_stock store [] = None"
| "check_stock store (item # items) =
     (case get_product store (item_id item) of
        None \<Rightarrow> check_stock store items
      | Some product \<Rightarrow>
          (case py_int (c6_is_available product) of
             Inl e \<Rightarrow> Some (StockCheckFailed (item_name item))
           | Inr current_stock \<Rightarrow>
               (let requested_quantity = item_quantity item
                in if current_stock < requested_quantity
                   then Some (StockIssue (item_name item) current_stock requested_quantity)
                   else check_stock store items)))"

text \<open>
  The loop "Update stock in database (deduct quantities purchased)", the same in both
  methods: \<open>new_stock = int(product[6]) - quantity\<close> is written to \<open>stock_quantity\<close>;
  when \<open>int()\<close> raises, the error is printed and the loop goes on.
\<close>

fun update_stock :: "database \<Rightarrow> cart_item list \<Rightarrow> database" where
  "update_stock store [] = store"
| "update_stock store (item # items) =
     (case get_product store (item_id item) of
        None \<Rightarrow> update_stock store items
      | Some product \<Rightarrow>
          (case py_int (c6_is_available product) of
             Inl e \<Rightarrow> update_stock store items
           | Inr current_stock \<Rightarrow>
               (let quantity_purchased = item_quantity item;
                    new_stock = current_stock - quantity_purchased
                in update_stock (update_product_stock store (item_id item) new_stock) items)))"

text \<open>
  The \<open>try\<close> block shared by both methods, from the call of the renderer on: render,
  update the stock, offer to open the file, clear the cart. An exception of the renderer
  or of the program that opens the file leaves the block at that point for the
  \<open>except Exception\<close> handler, which only shows a message.
\<close>

definition render_and_commit :: "environment \<Rightarrow> shop \<Rightarrow> invoice_args \<Rightarrow> checkout_outcome \<times> shop" where
  "render_and_commit env s args =
     (case generate_invoice env args of
        Inl e \<Rightarrow> (RenderFailed e args, s)
      | Inr pdf_file \<Rightarrow>
          (let s1 = s\<lparr>db := update_stock (db s) (cart_items s)\<rparr>
           in case (if open_reply env then open_pdf env pdf_file else None) of
                Some e \<Rightarrow> (OpenFailed e args, s1)
              | None \<Rightarrow> (PaymentSuccessful pdf_file args, s1\<lparr>cart_items := []\<rparr>)))"

text \<open>\<open>total = sum(item['price'] for item in self.cart_items)\<close>.\<close>

definition cart_total :: "cart_item list \<Rightarrow> rat" where
  "cart_total items = sum_list (map item_price items)"

text \<open>\<open>checkout()\<close>: the "Full Payment" button.\<close>

definition checkout :: "environment \<Rightarrow> shop \<Rightarrow> checkout_outcome \<times> shop" where
  "checkout env s =
     (if cart_items s = [] then (EmptyCart, s)
      else case check_stock (db s) (cart_items s) of
        Some issue \<Rightarrow> (issue, s)
      | None \<Rightarrow>
          (case customer_info env of
             None \<Rightarrow> (CustomerInfoCancelled, s)
           | Some (customer_name, customer_address, customer_phone, customer_email) \<Rightarrow>
               (let file_path = save_file_name env
                in if file_path = [] then (SaveCancelled, s)
                   else
                     (let total = cart_total (cart_items s)
                      in render_and_commit env s
                           \<lparr>inv_cart_items = cart_items s, inv_total_amount = total,
                            inv_payment_type = Some ''full'', inv_advance_amount = total,
                            inv_balance_amount = 0, inv_due_date = None,
                            inv_customer_name = customer_name,
                            inv_customer_address = customer_address,
                            inv_customer_phone = customer_phone,
                            inv_customer_email = customer_email,
                            inv_payment_method = ''Full Payment'',
                            inv_file_path = file_path\<rparr>))))"

text \<open>\<open>process_advance_payment()\<close>: the "Pay Advance" button.\<close>

definition process_advance_payment :: "environment \<Rightarrow> shop \<Rightarrow> checkout_outcome \<times> shop" where
  "process_advance_payment env s =
     (if cart_items s = [] then (EmptyCart, s)
      else case check_stock (db s) (cart_items s) of
        Some issue \<Rightarrow> (issue, s)
      | None \<Rightarrow>
          (let total = cart_total (cart_items s);
               advance_dialog = exec_dialog (init_dialog total (today env)) (dialog_events env)
           in if dialog_code advance_dialog \<noteq> Some Accepted then (PlanCancelled, s)
              else case customer_info env of
                None \<Rightarrow> (CustomerInfoCancelled, s)
              | Some (customer_name, customer_address, customer_phone, customer_email) \<Rightarrow>
                  (let file_path = save_file_name env
                   in if file_path = [] then (SaveCancelled, s)
                      else render_and_commit env s
                             \<lparr>inv_cart_items = cart_items s, inv_total_amount = total,
                              inv_payment_type = payment_type advance_dialog,
                              inv_advance_amount = advance_amount advance_dialog,
                              inv_balance_amount = balance_amount advance_dialog,
                              inv_due_date =
                                (if payment_type advance_dialog = Some ''advance''
                                 then Some (due_date advance_dialog) else None),
                              inv_customer_name = customer_name,
                              inv_customer_address = customer_address,
                              inv_customer_phone = customer_phone,
                              inv_customer_email = customer_email,
                              inv_payment_method = payment_method advance_dialog,
                              inv_file_path = file_path\<rparr>)))"

text \<open>The attempts that end before the stock update: the checkout was aborted.\<close>

fun aborted :: "checkout_outcome \<Rightarrow> bool" where
  "aborted (StockIssue name available requested) = True"
| "aborted (StockCheckFailed name) = True"
| "aborted PlanCancelled = True"
| "aborted CustomerInfoCancelled = True"
| "aborted SaveCancelled = True"
| "aborted (RenderFailed e args) = True"
| "aborted EmptyCart = False"
| "aborted (OpenFailed e args) = False"
| "aborted (PaymentSuccessful pdf_file args) = False"

text \<open>The invoice that an attempt handed to the renderer and that was produced.\<close>

fun produced_invoice :: "checkout_outcome \<Rightarrow> invoice_args option" where
  "produced_invoice (PaymentSuccessful pdf_file args) = Some args"
| "produced_invoice (OpenFailed e args) = Some args"
| "produced_invoice out = None"

text \<open>The attempts that ran to the end: the invoice exists and the cart was cleared.\<close>

fun successful :: "checkout_outcome \<Rightarrow> bool" where
  "successful (PaymentSuccessful pdf_file args) = True"
| "successful out = False"

section \<open>Example data\<close>

text \<open>
  A store with one product, five units in stock and marked available, a cart line of
  \<open>q\<close> units of it, and a customer who fills in every dialog. The renderer writes the
  file it is asked for; \<open>reply\<close> is the answer to "Do you want to open the PDF?" and
  \<open>opened\<close> is what the program that opens the file does.
\<close>

definition chair :: product_row where
  "chair =
     \<lparr>c0_id = 1, c1_name = ''Chair'', c2_description = ''Folding chair'',
      c3_price_per_hour = 200, c4_image_path = ''chair.png'', c5_stock_quantity = Some 5,
      c6_is_available = Some 1, c7_created_at = ''2024-01-01 10:00:00''\<rparr>"

definition chair_line :: "int \<Rightarrow> cart_item" where
  "chair_line q =
     \<lparr>item_id = 1, item_name = ''Chair'', item_price = 200 * of_int q, item_quantity = q\<rparr>"

definition example_shop :: "int \<Rightarrow> shop" where
  "example_shop q = \<lparr>cart_items = [chair_line q], db = [chair]\<rparr>"

definition example_env :: "bool \<Rightarrow> py_exn option \<Rightarrow> environment" where
  "example_env reply opened =
     \<lparr>customer_info = Some (''Asha'', ''12 Main Road'', [], []),
      save_file_name = ''invoice.pdf'',
      generate_invoice = (\<lambda>args. Inr (inv_file_path args)),
      open_reply = reply,
      open_pdf = (\<lambda>pdf_file. opened),
      dialog_events = [AdvanceValueChanged 50, ProceedClicked],
      today = 100\<rparr>"

section \<open>Facts used by several results\<close>

lemmas example_defs = chair_def chair_line_def example_shop_def example_env_def

lemmas checkout_defs = checkout_def process_advance_payment_def render_and_commit_def
  get_product_def py_int_def update_product_stock_def cart_total_def

lemmas dialog_defs = init_dialog_def on_advance_changed_def on_payment_method_changed_def
  accept_advance_def accept_full_def reject_def

section \<open>Rounding to a float\<close>

lemma py_round_error: "\<bar>of_int (py_round y) - y\<bar> \<le> 1 / 2"
proof -
  define f where "f = \<lfloor>y\<rfloor>"
  define d where "d = y - of_int f"
  have d: "0 \<le> d" "d < 1" unfolding d_def f_def by linarith+
  have y: "y = of_int f + d" by (simp add: d_def)
  have "py_round y = (if d < 1 / 2 then f else if 1 / 2 < d then f + 1
                       else if even f then f else f + 1)"
    by (simp add: py_round_def Let_def f_def d_def)
  then show ?thesis using d unfolding y by (auto split: if_splits)
qed

lemma ilog2_bounds:
  assumes "0 < x"
  shows "power_int 2 (ilog2 x) \<le> x" and "x < power_int 2 (ilog2 x + 1)"
proof -
  obtain p q where pq: "quotient_of x = (p, q)" by (cases "quotient_of x")
  then have q: "0 < q" by (rule quotient_of_denom_pos)
  from pq have x: "x = of_int p / of_int q" by (rule quotient_of_div)
  with assms q have p: "0 < p" by (simp add: zero_less_divide_iff)
  define k where "k = bitlen p - bitlen q"
  have i: "ilog2 x = (if power_int 2 k \<le> x then k else k - 1)"
    by (simp add: ilog2_def pq Let_def k_def)
  have bp: "1 \<le> bitlen p" using p by (auto simp: bitlen_alt_def)
  have bq: "1 \<le> bitlen q" using q by (auto simp: bitlen_alt_def)
  from bitlen_bounds [OF p] have "2 ^ nat (bitlen p - 1) \<le> p" and "p < 2 ^ nat (bitlen p)"
    by simp_all
  then have "(of_int (2 ^ nat (bitlen p - 1)) :: rat) \<le> of_int p"
    and "(of_int p :: rat) < of_int (2 ^ nat (bitlen p))"
    by (simp_all only: of_int_le_iff of_int_less_iff)
  with bp have p_lo: "power_int 2 (bitlen p - 1) \<le> (of_int p :: rat)"
    and p_hi: "(of_int p :: rat) < power_int 2 (bitlen p)"
    by (simp_all add: power_int_def)
  from bitlen_bounds [OF q] have "2 ^ nat (bitlen q - 1) \<le> q" and "q < 2 ^ nat (bitlen q)"
    by simp_all
  then have "(of_int (2 ^ nat (bitlen q - 1)) :: rat) \<le> of_int q"
    and "(of_int q :: rat) < of_int (2 ^ nat (bitlen q))"
    by (simp_all only: of_int_le_iff of_int_less_iff)
  with bq have q_lo: "power_int 2 (bitlen q - 1) \<le> (of_int q :: rat)"
    and q_hi: "(of_int q :: rat) < power_int 2 (bitlen q)"
    by (simp_all add: power_int_def)
  have lower: "power_int 2 (k - 1) \<le> x"
  proof -
    have "power_int 2 (k - 1) = (power_int 2 (bitlen p - 1) :: rat) / power_int 2 (bitlen q)"
      unfolding k_def using power_int_diff [of "2::rat" "bitlen p - 1" "bitlen q"]
      by (simp add: algebra_simps)
    also have "\<dots> \<le> of_int p / power_int 2 (bitlen q)"
      using p_lo by (simp add: divide_right_mono)
    also have "\<dots> \<le> of_int p / of_int q"
      using q_hi p q by (simp add: frac_le)
    finally show ?thesis using x by simp
  qed
  have upper: "x < power_int 2 (k + 1)"
  proof -
    have "x \<le> of_int p / power_int 2 (bitlen q - 1)"
      unfolding x using q_lo p q by (intro divide_left_mono mult_pos_pos) simp_all
    also have "\<dots> < power_int 2 (bitlen p) / power_int 2 (bitlen q - 1)"
      using p_hi by (simp add: divide_strict_right_mono)
    also have "\<dots> = (power_int 2 (k + 1) :: rat)"
      unfolding k_def using power_int_diff [of "2::rat" "bitlen p" "bitlen q - 1"]
      by (simp add: algebra_simps)
    finally show ?thesis .
  qed
  show "power_int 2 (ilog2 x) \<le> x"
    using i lower by (simp split: if_splits)
  show "x < power_int 2 (ilog2 x + 1)"
  proof (cases "power_int 2 k \<le> x")
    case True
    with i upper show ?thesis by simp
  next
    case False
    with i show ?thesis by simp
  qed
qed

lemma float_round_error:
  "\<bar>float_round x - x\<bar> \<le> max (\<bar>x\<bar> / 2 ^ 53) (power_int 2 (- 1075))"
proof (cases "x = 0")
  case True
  then show ?thesis by (simp add: float_round_def)
next
  case False
  define e where "e = max (ilog2 \<bar>x\<bar>) (- 1022)"
  define quantum :: rat where "quantum = power_int 2 (e - 52)"
  have qpos: "0 < quantum" by (simp add: quantum_def)
  have fr: "float_round x = of_int (py_round (x / quantum)) * quantum"
    using False by (simp add: float_round_def Let_def e_def quantum_def)
  have "float_round x - x = (of_int (py_round (x / quantum)) - x / quantum) * quantum"
    using qpos by (simp add: fr field_simps)
  then have "\<bar>float_round x - x\<bar> = \<bar>of_int (py_round (x / quantum)) - x / quantum\<bar> * quantum"
    using qpos by (simp add: abs_mult)
  also have "\<dots> \<le> (1 / 2) * quantum"
    using py_round_error [of "x / quantum"] qpos by (intro mult_right_mono) simp_all
  finally have err: "\<bar>float_round x - x\<bar> \<le> quantum / 2" by simp
  have half: "quantum / 2 = power_int 2 (e - 53)"
    unfolding quantum_def using power_int_diff [of "2::rat" "e - 52" 1]
    by (simp add: algebra_simps)
  show ?thesis
  proof (cases "- 1022 \<le> ilog2 \<bar>x\<bar>")
    case True
    then have e: "e = ilog2 \<bar>x\<bar>" by (simp add: e_def)
    have "power_int 2 (ilog2 \<bar>x\<bar>) \<le> \<bar>x\<bar>"
      using False by (intro ilog2_bounds) simp
    then have "(power_int 2 e :: rat) / 2 ^ 53 \<le> \<bar>x\<bar> / 2 ^ 53"
      unfolding e by (rule divide_right_mono) simp
    moreover have "power_int 2 (e - 53) = (power_int 2 e :: rat) / 2 ^ 53"
      using power_int_diff [of "2::rat" e 53] by simp
    ultimately have "quantum / 2 \<le> \<bar>x\<bar> / 2 ^ 53"
      unfolding half by (rule ssubst [where P = "\<lambda>z. z \<le> \<bar>x\<bar> / 2 ^ 53", rotated])
    with err have "\<bar>float_round x - x\<bar> \<le> \<bar>x\<bar> / 2 ^ 53" by (rule order_trans)
    then show ?thesis by (rule max.coboundedI1)
  next
    case False
    then have "e - 53 = - 1075" by (simp add: e_def)
    with half have "quantum / 2 = power_int 2 (- 1075)" by (simp only:)
    with err have "\<bar>float_round x - x\<bar> \<le> power_int 2 (- 1075)" by (simp only:)
    then show ?thesis by (rule max.coboundedI2)
  qed
qed

lemma float_round_cent:
  assumes "\<bar>x\<bar> \<le> 10 ^ 12"
  shows "\<bar>float_round x - x\<bar> < 1 / 200"
proof -
  have "\<bar>x\<bar> / 2 ^ 53 \<le> 10 ^ 12 / 2 ^ 53" using assms by (simp add: divide_right_mono)
  also have "\<dots> < (1 / 200 :: rat)" by simp
  finally have a: "\<bar>x\<bar> / 2 ^ 53 < 1 / 200" .
  have "(power_int 2 (- 1075) :: rat) \<le> power_int 2 (- 8)"
    by (rule power_int_increasing) simp_all
  also have "\<dots> < (1 / 200 :: rat)" by (simp add: power_int_def power_divide)
  finally have b: "(power_int 2 (- 1075) :: rat) < 1 / 200" .
  from a b have "max (\<bar>x\<bar> / 2 ^ 53) (power_int 2 (- 1075)) < (1 / 200 :: rat)"
    by (rule max_less_iff_conj [THEN iffD2, OF conjI])
  with float_round_error [of x] show ?thesis by (rule le_less_trans)
qed

text \<open>The floats of the amounts used in the examples.\<close>

lemma float_round_examples:
  "float_round 50 = 50" "float_round 150 = 150" "float_round 600 = 600"
  "float_round 900 = 900" "float_round 2000 = 2000"
  by code_simp+

section \<open>Stock validation and stock update\<close>

text \<open>
  What the two loops do for a cart of one line whose product is in the table: the check
  passes exactly when the quantity is at most the number in column 6, and the update
  writes that number minus the quantity to the stock column.
\<close>

lemma check_stock_single_line:
  assumes "get_product store (item_id item) = Some product"
  shows "check_stock store [item] = None
    \<longleftrightarrow> (\<exists>flag. c6_is_available product = Some flag \<and> item_quantity item \<le> flag)"
  using assms by (auto simp: py_int_def Let_def split: option.splits)

lemma update_stock_single_line:
  assumes "get_product store (item_id item) = Some product"
    and "c6_is_available product = Some flag"
  shows "update_stock store [item]
    = update_product_stock store (item_id item) (flag - item_quantity item)"
  using assms by (simp add: py_int_def Let_def)

text \<open>
  C1. The claim: before a checkout the stock check re-reads the product's live
  \<open>stock_quantity\<close> and lets the checkout proceed exactly when the quantity in the cart
  is at most that value. The check does re-read the row, but it compares the quantity
  with \<open>product[6]\<close>, which is the \<open>is_available\<close> flag; the comment beside it says
  "stock_quantity at index 6", and the product card and the admin panel read the stock
  at index 5. Two units of a product with five units in stock, put in the cart by two
  clicks on "Add to Cart", are refused by both checkout methods with "only 1 units
  available"; and one unit of the same product passes the check when its stock is 0.
\<close>

theorem stock_check_reads_availability_column:
  "run_cart_ops [AddToCart 1 ''Chair'' 200 5 False, AddToCart 1 ''Chair'' 200 5 False]
     = [chair_line 2]
   \<and> c5_stock_quantity chair = Some 5
   \<and> check_stock [chair] [chair_line 2] = Some (StockIssue ''Chair'' 1 2)
   \<and> checkout env (example_shop 2) = (StockIssue ''Chair'' 1 2, example_shop 2)
   \<and> process_advance_payment env (example_shop 2) = (StockIssue ''Chair'' 1 2, example_shop 2)
   \<and> check_stock [chair\<lparr>c5_stock_quantity := Some 0\<rparr>] [chair_line 1] = None"
  by (simp add: example_defs checkout_defs run_cart_ops_def add_to_cart_def Let_def)

text \<open>
  C2. The claim: after a successful checkout of \<open>q\<close> units the cart is empty and the
  product's stock is its former value minus \<open>q\<close>. The cart is emptied, but the new stock
  is computed from \<open>product[6]\<close>, the \<open>is_available\<close> flag: one unit bought from a stock
  of five leaves \<open>1 - 1 = 0\<close> in the store instead of four, on both checkout methods.
\<close>

theorem checkout_writes_availability_minus_quantity:
  "c5_stock_quantity chair = Some 5
   \<and> item_quantity (chair_line 1) = 1
   \<and> successful (fst (checkout (example_env False None) (example_shop 1)))
   \<and> snd (checkout (example_env False None) (example_shop 1))
       = \<lparr>cart_items = [], db = [chair\<lparr>c5_stock_quantity := Some 0\<rparr>]\<rparr>
   \<and> successful (fst (process_advance_payment (example_env False None) (example_shop 1)))
   \<and> snd (process_advance_payment (example_env False None) (example_shop 1))
       = \<lparr>cart_items = [], db = [chair\<lparr>c5_stock_quantity := Some 0\<rparr>]\<rparr>"
  by (simp add: example_defs checkout_defs dialog_defs Let_def float_round_examples)

section \<open>Commit and abort\<close>

text \<open>
  C4. The claim: once the invoice has been produced, the stock is decremented and the cart
  is cleared even when opening the document fails. The stock update does run first, but
  the cart is cleared after the document is opened, inside the same \<open>try\<close> block: when
  the customer answers Yes and the program that opens the file raises, the handler
  reports "Failed to generate PDF" and the cart keeps its line, although the invoice
  exists and the stock has been written.
\<close>

theorem open_failure_leaves_cart:
  "produced_invoice (fst (checkout (example_env True (Some OSError)) (example_shop 1))) \<noteq> None
   \<and> snd (checkout (example_env True (Some OSError)) (example_shop 1))
       = \<lparr>cart_items = [chair_line 1], db = [chair\<lparr>c5_stock_quantity := Some 0\<rparr>]\<rparr>
   \<and> produced_invoice
        (fst (process_advance_payment (example_env True (Some OSError)) (example_shop 1))) \<noteq> None
   \<and> snd (process_advance_payment (example_env True (Some OSError)) (example_shop 1))
       = \<lparr>cart_items = [chair_line 1], db = [chair\<lparr>c5_stock_quantity := Some 0\<rparr>]\<rparr>"
  by (simp add: example_defs checkout_defs dialog_defs Let_def float_round_examples)

lemma render_and_commit_aborted:
  "render_and_commit env s args = (out, s') \<Longrightarrow> aborted out \<Longrightarrow> s' = s"
  by (auto simp: render_and_commit_def Let_def split: sum.splits option.splits)

lemma checkout_aborted:
  assumes "checkout env s = (out, s')" and "aborted out"
  shows "s' = s"
  using assms
  by (auto simp: checkout_def Let_def split: if_splits option.splits prod.splits
      dest: render_and_commit_aborted)

lemma process_advance_payment_aborted:
  assumes "process_advance_payment env s = (out, s')" and "aborted out"
  shows "s' = s"
  using assms
  by (auto simp: process_advance_payment_def Let_def split: if_splits option.splits prod.splits
      dest: render_and_commit_aborted)

text \<open>
  C5. An aborted checkout attempt, full or advance (the stock check refused it, the
  payment-plan dialog, the customer dialog or the save-file dialog was cancelled, or the
  renderer raised), leaves the cart and every stock quantity of the store as they were.
\<close>

theorem aborted_checkout_changes_nothing:
  assumes "checkout env s = (out, s') \<or> process_advance_payment env s = (out, s')"
    and "aborted out"
  shows "cart_items s' = cart_items s \<and> db s' = db s"
  using assms checkout_aborted process_advance_payment_aborted by blast

text \<open>
  C5, at a concrete attempt: one chair in the cart, every dialog filled in, and a
  renderer that raises.
\<close>

theorem aborted_checkout_changes_nothing_witness:
  "aborted (fst (checkout ((example_env False None)\<lparr>generate_invoice := (\<lambda>args. Inl RenderError)\<rparr>)
                  (example_shop 1)))
   \<and> cart_items (snd (checkout
          ((example_env False None)\<lparr>generate_invoice := (\<lambda>args. Inl RenderError)\<rparr>)
          (example_shop 1))) = [chair_line 1]
   \<and> db (snd (checkout
          ((example_env False None)\<lparr>generate_invoice := (\<lambda>args. Inl RenderError)\<rparr>)
          (example_shop 1))) = [chair]"
proof -
  let ?env = "(example_env False None)\<lparr>generate_invoice := (\<lambda>args. Inl RenderError)\<rparr>"
  let ?r = "checkout ?env (example_shop 1)"
  have run: "?r = (fst ?r, snd ?r) \<or> process_advance_payment ?env (example_shop 1) = (fst ?r, snd ?r)"
    by simp
  have ab: "aborted (fst ?r)"
    by (simp add: example_defs checkout_defs Let_def)
  from aborted_checkout_changes_nothing [OF run ab]
  have "cart_items (snd ?r) = cart_items (example_shop 1) \<and> db (snd ?r) = db (example_shop 1)" .
  then have "cart_items (snd ?r) = [chair_line 1] \<and> db (snd ?r) = [chair]"
    by (simp add: example_shop_def)
  with ab show ?thesis by simp
qed

section \<open>Amount in words\<close>

lemma ntw_0: "number_to_words 0 = Inr ''Zero''"
  by (simp add: number_to_words_def)

lemma ntw_100: "number_to_words 100 = Inr ''One Hundred Rupees''"
  by code_simp

lemma ntw_100000: "number_to_words 100000 = Inr ''One Lakh Rupees''"
  by code_simp

lemma ntw_1250_50: "number_to_words 1250.5 = Inr ''One Thousand 250 Rupees and Fifty Paise''"
  by code_simp

lemma ntw_1250_50_split:
  "number_to_words 1250.5 = Inr (''One Thousand 250 '' @ ''Rupees and Fifty Paise'')"
  by code_simp

lemma paise_of_0: "paise_of 0 = 0"
  by (simp add: paise_of_def rupees_of_def py_trunc_def py_round_def)

lemma not_suffix_Rupees: "\<not> suffix '' Paise'' (xs @ '' Rupees'')"
proof
  assume "suffix '' Paise'' (xs @ '' Rupees'')"
  then obtain us where "xs @ '' Rupees'' = us @ '' Paise''"
    by (auto simp: suffix_def)
  then have "last (xs @ '' Rupees'') = last (us @ '' Paise'')"
    by simp
  then show False by simp
qed

lemma paise_clause:
  assumes "number_to_words n = Inr s"
  shows "suffix '' Paise'' s \<longleftrightarrow> 0 < paise_of n"
proof (cases "n = 0")
  case True
  with assms have "s = ''Zero''" by (simp add: number_to_words_def)
  then show ?thesis using True by (simp add: paise_of_0 suffix_def)
next
  case False
  with assms obtain r0 where r0: "rupees_words (rupees_of n) = Inr r0"
    by (auto simp: number_to_words_def split: sum.splits)
  show ?thesis
  proof (cases "0 < paise_of n")
    case True
    with assms False r0 obtain p where "s = (strip r0 @ '' Rupees'') @ '' and '' @ p @ '' Paise''"
      by (auto simp: number_to_words_def Let_def split: sum.splits)
    then have "s = (strip r0 @ '' Rupees'' @ '' and '' @ p) @ '' Paise''" by simp
    then have "suffix '' Paise'' s" unfolding suffix_def by blast
    with True show ?thesis by simp
  next
    case F: False
    with assms False r0 have "s = strip r0 @ '' Rupees''"
      by (auto simp: number_to_words_def Let_def split: sum.splits)
    with F show ?thesis using not_suffix_Rupees by simp
  qed
qed


lemma rupees_of_int: "rupees_of (of_int r) = r"
  by (simp add: rupees_of_def py_trunc_def)

lemma paise_of_int: "paise_of (of_int r) = 0"
  by (simp add: paise_of_def rupees_of_int py_round_def)

lemma convert_two_digits_total:
  assumes "0 \<le> k"
  shows "\<exists>w. convert_two_digits k = Inr w"
proof -
  have m: "0 \<le> k mod 10" "k mod 10 < 10" by simp_all
  show ?thesis
    using assms m
    by (auto simp: convert_two_digits_def py_index_def units_def teens_def tens_def Let_def)
qed

lemma number_to_words_whole:
  assumes "r \<noteq> 0" and "rupees_words r = Inr w"
  shows "number_to_words (of_int r) = Inr (strip w @ '' Rupees'')"
  using assms by (simp add: number_to_words_def rupees_of_int paise_of_int)

lemma rupees_words_hundreds:
  assumes "r \<noteq> 0" and "\<not> r < 100" and "r < 1000"
    and "py_index units (r div 100) = Inr h" and "convert_two_digits (r mod 100) = Inr w"
  shows "rupees_words r = Inr (h @ '' Hundred '' @ w)"
  unfolding rupees_words_def using assms by (simp only: if_False if_True sum.case)

lemma rupees_words_thousands:
  assumes "r \<noteq> 0" and "\<not> r < 100" and "\<not> r < 1000" and "r < 100000"
    and "convert_two_digits (r div 1000) = Inr t" and "convert_two_digits (r mod 1000) = Inr w"
  shows "rupees_words r = Inr (t @ '' Thousand '' @ w)"
  unfolding rupees_words_def using assms by (simp only: if_False if_True sum.case)

lemma rupees_words_lakhs:
  assumes "r \<noteq> 0" and "\<not> r < 100" and "\<not> r < 1000" and "\<not> r < 100000"
    and "convert_two_digits (r div 100000) = Inr l"
    and "convert_two_digits (r mod 100000) = Inr w"
  shows "rupees_words r = Inr (l @ '' Lakh '' @ w)"
  unfolding rupees_words_def using assms by (simp only: if_False if_True sum.case)

lemma hundreds_group:
  assumes "100 \<le> r" and "r < 1000"
  shows "\<exists>h w. py_index units (r div 100) = Inr h \<and> convert_two_digits (r mod 100) = Inr w
           \<and> number_to_words (of_int r) = Inr (strip (h @ '' Hundred '' @ w) @ '' Rupees'')"
proof -
  from assms have c: "r \<noteq> 0" "\<not> r < 100" by simp_all
  from assms have "0 \<le> r div 100" by (simp add: pos_imp_zdiv_nonneg_iff)
  moreover have "r div 100 < 10"
  proof -
    from assms have "r \<le> 999" by simp
    then have "r div 100 \<le> 999 div 100" by (rule zdiv_mono1) simp
    then show ?thesis by simp
  qed
  ultimately have h: "py_index units (r div 100) = Inr (units ! nat (r div 100))"
    by (simp add: py_index_def units_def)
  have "0 \<le> r mod 100" by simp
  then obtain w where w: "convert_two_digits (r mod 100) = Inr w"
    using convert_two_digits_total by blast
  have "rupees_words r = Inr (units ! nat (r div 100) @ '' Hundred '' @ w)"
    using c assms(2) h w by (rule rupees_words_hundreds)
  with c(1) have "number_to_words (of_int r)
      = Inr (strip (units ! nat (r div 100) @ '' Hundred '' @ w) @ '' Rupees'')"
    by (rule number_to_words_whole)
  with h w show ?thesis by (intro exI conjI)
qed

lemma thousands_group:
  assumes "1000 \<le> r" and "r < 100000"
  shows "\<exists>t w. convert_two_digits (r div 1000) = Inr t \<and> convert_two_digits (r mod 1000) = Inr w
           \<and> number_to_words (of_int r) = Inr (strip (t @ '' Thousand '' @ w) @ '' Rupees'')"
proof -
  from assms have c: "r \<noteq> 0" "\<not> r < 100" "\<not> r < 1000" by simp_all
  from assms have "0 \<le> r div 1000" by (simp add: pos_imp_zdiv_nonneg_iff)
  then obtain t where t: "convert_two_digits (r div 1000) = Inr t"
    using convert_two_digits_total by blast
  have "0 \<le> r mod 1000" by simp
  then obtain w where w: "convert_two_digits (r mod 1000) = Inr w"
    using convert_two_digits_total by blast
  have "rupees_words r = Inr (t @ '' Thousand '' @ w)"
    using c assms(2) t w by (rule rupees_words_thousands)
  with c(1) have "number_to_words (of_int r) = Inr (strip (t @ '' Thousand '' @ w) @ '' Rupees'')"
    by (rule number_to_words_whole)
  with t w show ?thesis by (intro exI conjI)
qed

lemma lakhs_group:
  assumes "100000 \<le> r"
  shows "\<exists>l w. convert_two_digits (r div 100000) = Inr l \<and> convert_two_digits (r mod 100000) = Inr w
           \<and> number_to_words (of_int r) = Inr (strip (l @ '' Lakh '' @ w) @ '' Rupees'')"
proof -
  from assms have c: "r \<noteq> 0" "\<not> r < 100" "\<not> r < 1000" "\<not> r < 100000" by simp_all
  from assms have "0 \<le> r div 100000" by (simp add: pos_imp_zdiv_nonneg_iff)
  then obtain l where l: "convert_two_digits (r div 100000) = Inr l"
    using convert_two_digits_total by blast
  have "0 \<le> r mod 100000" by simp
  then obtain w where w: "convert_two_digits (r mod 100000) = Inr w"
    using convert_two_digits_total by blast
  have "rupees_words r = Inr (l @ '' Lakh '' @ w)"
    using c l w by (rule rupees_words_lakhs)
  with c(1) have "number_to_words (of_int r) = Inr (strip (l @ '' Lakh '' @ w) @ '' Rupees'')"
    by (rule number_to_words_whole)
  with l w show ?thesis by (intro exI conjI)
qed

text \<open>
  The thousand and lakh branches hand a remainder of up to three or five digits to the
  two-digit helper, which returns its decimal digits: 1500 is rendered with digits, not
  as "One Thousand Five Hundred Rupees". The results about the claim below leave such
  amounts aside.
\<close>

lemma number_to_words_1500: "number_to_words 1500 = Inr ''One Thousand 500 Rupees''"
  by code_simp

text \<open>
  C3, as stated, fails: the claim maps 0 to "Zero Rupees", but \<open>number_to_words\<close>
  returns the word "Zero" alone for 0, before any unit is appended.
\<close>

theorem number_to_words_zero_counterexample:
  "number_to_words 0 = Inr ''Zero'' \<and> number_to_words 0 \<noteq> Inr ''Zero Rupees''"
  by (simp add: number_to_words_def)

text \<open>
  C3, amended. \<open>number_to_words\<close> uses the thresholds 100, 1000 and 100000 (Hundred,
  Thousand, Lakh): the quotient and the remainder below the threshold are rendered by the
  two-digit helper and joined by the group word, stated here for the whole amounts whose
  remainder is below 100. It maps 0 to "Zero", 100 to "One Hundred Rupees", 100000 to
  "One Lakh Rupees" and 1250.50 to a string ending in "Rupees and Fifty Paise", and the
  result ends with a paise clause exactly when the rounded minor unit is positive.
\<close>

theorem number_to_words_cases:
  "number_to_words 0 = Inr ''Zero''
   \<and> number_to_words 100 = Inr ''One Hundred Rupees''
   \<and> number_to_words 100000 = Inr ''One Lakh Rupees''
   \<and> (\<exists>p. number_to_words 1250.5 = Inr (p @ ''Rupees and Fifty Paise''))
   \<and> (\<forall>n s. number_to_words n = Inr s \<longrightarrow> (suffix '' Paise'' s \<longleftrightarrow> 0 < paise_of n))
   \<and> (\<forall>r. 100 \<le> r \<and> r < 1000 \<longrightarrow>
         (\<exists>h w. py_index units (r div 100) = Inr h \<and> convert_two_digits (r mod 100) = Inr w
            \<and> number_to_words (of_int r) = Inr (strip (h @ '' Hundred '' @ w) @ '' Rupees'')))
   \<and> (\<forall>r. 1000 \<le> r \<and> r < 100000 \<and> r mod 1000 < 100 \<longrightarrow>
         (\<exists>t w. convert_two_digits (r div 1000) = Inr t \<and> convert_two_digits (r mod 1000) = Inr w
            \<and> number_to_words (of_int r) = Inr (strip (t @ '' Thousand '' @ w) @ '' Rupees'')))
   \<and> (\<forall>r. 100000 \<le> r \<and> r div 100000 < 100 \<and> r mod 100000 < 100 \<longrightarrow>
         (\<exists>l w. convert_two_digits (r div 100000) = Inr l
            \<and> convert_two_digits (r mod 100000) = Inr w
            \<and> number_to_words (of_int r) = Inr (strip (l @ '' Lakh '' @ w) @ '' Rupees'')))"
proof (intro conjI allI impI)
  show "number_to_words 0 = Inr ''Zero''" by (rule ntw_0)
  show "number_to_words 100 = Inr ''One Hundred Rupees''" by (rule ntw_100)
  show "number_to_words 100000 = Inr ''One Lakh Rupees''" by (rule ntw_100000)
  show "\<exists>p. number_to_words 1250.5 = Inr (p @ ''Rupees and Fifty Paise'')"
    by (rule exI [where x = "''One Thousand 250 ''"]) (rule ntw_1250_50_split)
next
  fix n s
  assume "number_to_words n = Inr s"
  then show "suffix '' Paise'' s \<longleftrightarrow> 0 < paise_of n" by (rule paise_clause)
next
  fix r :: int
  assume a: "100 \<le> r \<and> r < 1000"
  from a [THEN conjunct1] a [THEN conjunct2] show "\<exists>h w. py_index units (r div 100) = Inr h \<and> convert_two_digits (r mod 100) = Inr w
            \<and> number_to_words (of_int r) = Inr (strip (h @ '' Hundred '' @ w) @ '' Rupees'')"
    by (rule hundreds_group)
next
  fix r :: int
  assume a: "1000 \<le> r \<and> r < 100000 \<and> r mod 1000 < 100"
  from a [THEN conjunct1] a [THEN conjunct2, THEN conjunct1] show "\<exists>t w. convert_two_digits (r div 1000) = Inr t \<and> convert_two_digits (r mod 1000) = Inr w
            \<and> number_to_words (of_int r) = Inr (strip (t @ '' Thousand '' @ w) @ '' Rupees'')"
    by (rule thousands_group)
next
  fix r :: int
  assume a: "100000 \<le> r \<and> r div 100000 < 100 \<and> r mod 100000 < 100"
  from a [THEN conjunct1] show "\<exists>l w. convert_two_digits (r div 100000) = Inr l
            \<and> convert_two_digits (r mod 100000) = Inr w
            \<and> number_to_words (of_int r) = Inr (strip (l @ '' Lakh '' @ w) @ '' Rupees'')"
    by (rule lakhs_group)
qed

lemma paise_of_1250_50: "0 < paise_of 1250.5"
  by code_simp

text \<open>
  C3, amended, at concrete amounts: 1250.50 for the paise clause, 120, 21050 and 300007
  for the three groups.
\<close>

theorem number_to_words_cases_witness:
  "number_to_words 1250.5 = Inr ''One Thousand 250 Rupees and Fifty Paise''
   \<and> suffix '' Paise'' ''One Thousand 250 Rupees and Fifty Paise''
   \<and> number_to_words 120 = Inr ''One Hundred Twenty Rupees''
   \<and> number_to_words 21050 = Inr ''Twenty One Thousand Fifty Rupees''
   \<and> number_to_words 300007 = Inr ''Three Lakh Seven Rupees''"
proof -
  note c = number_to_words_cases [THEN conjunct2, THEN conjunct2, THEN conjunct2, THEN conjunct2]
  note paise = c [THEN conjunct1, rule_format]
  note hundred = c [THEN conjunct2, THEN conjunct1, rule_format]
  note thousand = c [THEN conjunct2, THEN conjunct2, THEN conjunct1, rule_format]
  note lakh = c [THEN conjunct2, THEN conjunct2, THEN conjunct2, rule_format]
  have s: "suffix '' Paise'' ''One Thousand 250 Rupees and Fifty Paise''"
    using paise [OF ntw_1250_50] paise_of_1250_50 by simp
  have h1: "(100::int) \<le> 120 \<and> (120::int) < 1000" by simp
  from hundred [OF h1] obtain h w where
    "py_index units (120 div 100) = Inr h" and "convert_two_digits (120 mod 100) = Inr w"
    and "number_to_words (of_int 120) = Inr (strip (h @ '' Hundred '' @ w) @ '' Rupees'')"
    by (elim exE conjE)
  then have a: "number_to_words 120 = Inr ''One Hundred Twenty Rupees''"
    by (auto simp: py_index_def units_def tens_def convert_two_digits_def strip_def py_isspace_def)
  have h2: "(1000::int) \<le> 21050 \<and> (21050::int) < 100000 \<and> (21050::int) mod 1000 < 100"
    by simp
  from thousand [OF h2] obtain t w where
    "convert_two_digits (21050 div 1000) = Inr t" and "convert_two_digits (21050 mod 1000) = Inr w"
    and "number_to_words (of_int 21050) = Inr (strip (t @ '' Thousand '' @ w) @ '' Rupees'')"
    by (elim exE conjE)
  then have b: "number_to_words 21050 = Inr ''Twenty One Thousand Fifty Rupees''"
    by (auto simp: py_index_def units_def tens_def convert_two_digits_def strip_def py_isspace_def)
  have h3: "(100000::int) \<le> 300007 \<and> (300007::int) div 100000 < 100
      \<and> (300007::int) mod 100000 < 100"
    by simp
  from lakh [OF h3] obtain l w where
    "convert_two_digits (300007 div 100000) = Inr l"
    and "convert_two_digits (300007 mod 100000) = Inr w"
    and "number_to_words (of_int 300007) = Inr (strip (l @ '' Lakh '' @ w) @ '' Rupees'')"
    by (elim exE conjE)
  then have c3: "number_to_words 300007 = Inr ''Three Lakh Seven Rupees''"
    by (auto simp: py_index_def units_def tens_def convert_two_digits_def strip_def py_isspace_def)
  show ?thesis
    using ntw_1250_50 s a b c3 by (intro conjI)
qed

section \<open>The cart\<close>

text \<open>
  C6. When the cart holds a line for the product that is added again, the call fails
  with "Stock Limit Reached" and leaves the line as it is if and only if
  \<open>quantity + 1 > stock_available\<close>; otherwise the quantity becomes \<open>quantity + 1\<close> and
  the line total becomes the unit price times \<open>quantity + 1\<close>. The unit price is the
  \<open>price\<close> argument of the call (\<open>unit_price = price\<close>): the cart entry stores only the
  line total.
\<close>

theorem add_same_product_increases:
  assumes "item_id current_item = product_id"
  shows "(item_quantity current_item + 1 > stock_available \<longrightarrow>
            add_to_cart (current_item # rest) product_id product_name price stock_available reply
              = (current_item # rest, StockLimitReached))
         \<and> (\<not> item_quantity current_item + 1 > stock_available \<longrightarrow>
            add_to_cart (current_item # rest) product_id product_name price stock_available reply
              = (current_item\<lparr>item_quantity := item_quantity current_item + 1,
                               item_price := price * of_int (item_quantity current_item + 1)\<rparr> # rest,
                 QuantityUpdated))
         \<and> (snd (add_to_cart (current_item # rest) product_id product_name price stock_available
                  reply) = StockLimitReached
              \<longleftrightarrow> item_quantity current_item + 1 > stock_available)"
  using assms by (auto simp: add_to_cart_def Let_def)

text \<open>
  C6, at the boundary and below it: a line of three chairs with three in stock, and a
  line of two chairs with three in stock.
\<close>

theorem add_same_product_increases_witness:
  "item_id (chair_line 3) = 1
   \<and> item_quantity (chair_line 3) + 1 > 3
   \<and> add_to_cart [chair_line 3] 1 ''Chair'' 200 3 False = ([chair_line 3], StockLimitReached)
   \<and> item_id (chair_line 2) = 1
   \<and> \<not> item_quantity (chair_line 2) + 1 > 3
   \<and> add_to_cart [chair_line 2] 1 ''Chair'' 200 3 False = ([chair_line 3], QuantityUpdated)"
proof -
  have i3: "item_id (chair_line 3) = 1" and i2: "item_id (chair_line 2) = 1"
    by (simp_all add: chair_line_def)
  have q3: "item_quantity (chair_line 3) + 1 > 3" and q2: "\<not> item_quantity (chair_line 2) + 1 > 3"
    by (simp_all add: chair_line_def)
  have a: "add_to_cart [chair_line 3] 1 ''Chair'' 200 3 False = ([chair_line 3], StockLimitReached)"
    using add_same_product_increases [OF i3, of 3 "[]" "''Chair''" 200 False] q3 by simp
  have "add_to_cart [chair_line 2] 1 ''Chair'' 200 3 False
      = ((chair_line 2)\<lparr>item_quantity := item_quantity (chair_line 2) + 1,
           item_price := 200 * of_int (item_quantity (chair_line 2) + 1)\<rparr> # [], QuantityUpdated)"
    using add_same_product_increases [OF i2, of 3 "[]" "''Chair''" 200 False] q2 by simp
  then have b: "add_to_cart [chair_line 2] 1 ''Chair'' 200 3 False = ([chair_line 3], QuantityUpdated)"
    by (simp add: chair_line_def)
  show ?thesis using i3 q3 a i2 q2 b by (intro conjI)
qed

lemma add_to_cart_length:
  "length c \<le> 1 \<Longrightarrow> length (fst (add_to_cart c product_id product_name price stock reply)) \<le> 1"
  by (cases c) (auto simp: add_to_cart_def Let_def)

lemma remove_from_cart_length: "length c \<le> 1 \<Longrightarrow> length (remove_from_cart c row) \<le> 1"
  by (auto simp: remove_from_cart_def)

lemma clear_cart_length: "length c \<le> 1 \<Longrightarrow> length (clear_cart c reply) \<le> 1"
  by (simp add: clear_cart_def)

lemma apply_cart_op_length: "length c \<le> 1 \<Longrightarrow> length (apply_cart_op c x) \<le> 1"
  by (cases x) (auto intro: add_to_cart_length remove_from_cart_length clear_cart_length
      simp del: One_nat_def)

lemma foldl_cart_ops_length:
  "length c \<le> 1 \<Longrightarrow> length (foldl apply_cart_op c ops) \<le> 1"
proof (induction ops arbitrary: c)
  case Nil
  then show ?case by simp
next
  case (Cons x ops)
  from Cons.prems have "length (apply_cart_op c x) \<le> 1" by (rule apply_cart_op_length)
  then show ?case using Cons.IH by simp
qed

text \<open>
  C7. After any finite sequence of cart actions (adding the same or another product, with
  the replacement confirmed or declined, removing a row, clearing the cart) and after
  each of its prefixes, the cart holds at most one line, hence at most one product id.
\<close>

theorem single_line_invariant:
  "length (run_cart_ops (take k ops)) \<le> 1
   \<and> card (item_id ` set (run_cart_ops (take k ops))) \<le> 1"
proof -
  have l: "length (run_cart_ops (take k ops)) \<le> 1"
    unfolding run_cart_ops_def by (rule foldl_cart_ops_length) simp
  have "card (item_id ` set (run_cart_ops (take k ops))) \<le> card (set (run_cart_ops (take k ops)))"
    by (rule card_image_le) simp
  also have "\<dots> \<le> length (run_cart_ops (take k ops))" by (rule card_length)
  finally show ?thesis using l by simp
qed

section \<open>The advance-payment dialog\<close>

lemma init_dialog_inv: "dialog_inv t day (init_dialog t day)"
  by (simp add: dialog_inv_def init_dialog_def)

lemma handle_event_inv:
  assumes "dialog_inv t day d"
  shows "dialog_inv t day (handle_event d e)"
  using assms
  by (cases e) (auto simp: dialog_inv_def dialog_defs Let_def split: if_splits)

lemma foldl_handle_event_inv:
  "dialog_inv t day d \<Longrightarrow> dialog_inv t day (foldl handle_event d evs)"
  by (induction evs arbitrary: d) (simp_all add: handle_event_inv)

lemma handle_event_plan:
  assumes "dialog_inv t day d" and "dialog_code d = None"
    and "dialog_code (handle_event d e) = Some Accepted"
  shows "total_amount (handle_event d e) = t
         \<and> (payment_type (handle_event d e) = Some ''full''
              \<and> advance_amount (handle_event d e) = t
              \<and> balance_amount (handle_event d e) = 0
            \<or> payment_type (handle_event d e) = Some ''advance''
              \<and> 0 < advance_amount (handle_event d e)
              \<and> advance_amount (handle_event d e) \<le> t
              \<and> balance_amount (handle_event d e)
                  = float_round (t - advance_amount (handle_event d e))
              \<and> day \<le> due_date (handle_event d e))"
  using assms
  by (cases e) (auto simp: dialog_inv_def dialog_defs Let_def split: if_splits)

lemma exec_dialog_plan:
  assumes "dialog_inv t day d" and "dialog_code d = None"
    and "dialog_code (exec_dialog d evs) = Some Accepted"
  shows "total_amount (exec_dialog d evs) = t
         \<and> (payment_type (exec_dialog d evs) = Some ''full''
              \<and> advance_amount (exec_dialog d evs) = t
              \<and> balance_amount (exec_dialog d evs) = 0
            \<or> payment_type (exec_dialog d evs) = Some ''advance''
              \<and> 0 < advance_amount (exec_dialog d evs)
              \<and> advance_amount (exec_dialog d evs) \<le> t
              \<and> balance_amount (exec_dialog d evs)
                  = float_round (t - advance_amount (exec_dialog d evs))
              \<and> day \<le> due_date (exec_dialog d evs))"
  using assms
proof (induction evs arbitrary: d)
  case Nil
  then show ?case by (simp add: reject_def)
next
  case (Cons e evs)
  let ?d' = "handle_event d e"
  have inv: "dialog_inv t day ?d'" using Cons.prems(1) by (rule handle_event_inv)
  show ?case
  proof (cases "dialog_code ?d' = None")
    case True
    then have e: "exec_dialog d (e # evs) = exec_dialog ?d' evs" by (simp add: Let_def)
    from Cons.prems(3) have "dialog_code (exec_dialog ?d' evs) = Some Accepted"
      unfolding e .
    with inv True show ?thesis unfolding e by (rule Cons.IH)
  next
    case False
    then have e: "exec_dialog d (e # evs) = ?d'" by (auto simp: Let_def)
    from Cons.prems(3) have "dialog_code ?d' = Some Accepted" unfolding e .
    with Cons.prems(1,2) show ?thesis unfolding e by (rule handle_event_plan)
  qed
qed

lemma exec_dialog_method:
  "payment_method d \<in> set payment_methods
     \<Longrightarrow> payment_method (exec_dialog d evs) \<in> set payment_methods"
proof (induction evs arbitrary: d)
  case Nil
  then show ?case by (simp add: reject_def)
next
  case (Cons e evs)
  have "payment_method (handle_event d e) \<in> set payment_methods"
    using Cons.prems by (cases e) (auto simp: dialog_defs Let_def)
  with Cons.IH show ?case by (simp add: Let_def)
qed

text \<open>
  The plan made by entering 10.1 on a total of 26.3, and the plans of the examples.
\<close>

lemma plan_26_3:
  "dialog_code (exec_dialog (init_dialog (float_round 26.3) 100)
      [AdvanceValueChanged 10.1, ProceedClicked]) = Some Accepted"
  "payment_type (exec_dialog (init_dialog (float_round 26.3) 100)
      [AdvanceValueChanged 10.1, ProceedClicked]) = Some ''advance''"
  "total_amount (exec_dialog (init_dialog (float_round 26.3) 100)
      [AdvanceValueChanged 10.1, ProceedClicked]) = 7402791887490253 / 281474976710656"
  "advance_amount (exec_dialog (init_dialog (float_round 26.3) 100)
      [AdvanceValueChanged 10.1, ProceedClicked]) = 5685794529555251 / 562949953421312"
  "balance_amount (exec_dialog (init_dialog (float_round 26.3) 100)
      [AdvanceValueChanged 10.1, ProceedClicked]) = 1139973655678157 / 70368744177664"
  by code_simp+

text \<open>
  C8, as stated, fails: with a total of 26.3 and an advance of 10.1 entered in the amount
  field, the dialog is accepted with the balance 16.200000000000003, the float of
  \<open>26.3 - 10.1\<close>, and the advance and the balance do not add up to the total, neither as
  numbers nor by float addition.
\<close>

theorem payment_split_not_exact_counterexample:
  "dialog_code (exec_dialog (init_dialog (float_round 26.3) 100)
      [AdvanceValueChanged 10.1, ProceedClicked]) = Some Accepted
   \<and> advance_amount (exec_dialog (init_dialog (float_round 26.3) 100)
        [AdvanceValueChanged 10.1, ProceedClicked])
       + balance_amount (exec_dialog (init_dialog (float_round 26.3) 100)
        [AdvanceValueChanged 10.1, ProceedClicked])
      \<noteq> total_amount (exec_dialog (init_dialog (float_round 26.3) 100)
        [AdvanceValueChanged 10.1, ProceedClicked])
   \<and> float_round
        (advance_amount (exec_dialog (init_dialog (float_round 26.3) 100)
          [AdvanceValueChanged 10.1, ProceedClicked])
         + balance_amount (exec_dialog (init_dialog (float_round 26.3) 100)
          [AdvanceValueChanged 10.1, ProceedClicked]))
      \<noteq> total_amount (exec_dialog (init_dialog (float_round 26.3) 100)
        [AdvanceValueChanged 10.1, ProceedClicked])"
  unfolding plan_26_3 by code_simp

text \<open>
  C8, amended. Every payment plan the dialog is accepted with is of the kind \<open>"full"\<close> or
  \<open>"advance"\<close>. Through "Process Advance Payment" the balance is the float difference
  \<open>total_amount - advance_amount\<close>, so that \<open>advance_amount + balance_amount\<close> differs from
  \<open>total_amount\<close> by at most the rounding of that one subtraction: at most
  \<open>|total - advance| / 2 ^ 53\<close> (or \<open>2 ^ (-1075)\<close>, if that is larger), which is less than
  half a cent for every total up to \<open>10 ^ 12\<close>. Through "Pay Full Amount" the advance is
  the total and the balance is 0, whatever the total and the state of the dialog, so that
  there the sum is exact.
\<close>

theorem payment_split_closure:
  assumes "p = exec_dialog (init_dialog t day) evs" and "dialog_code p = Some Accepted"
  shows "total_amount p = t
         \<and> (payment_type p = Some ''full'' \<or> payment_type p = Some ''advance'')
         \<and> (payment_type p = Some ''full'' \<longrightarrow>
              balance_amount p = 0 \<and> advance_amount p + balance_amount p = total_amount p)
         \<and> (payment_type p = Some ''advance'' \<longrightarrow>
              balance_amount p = float_round (total_amount p - advance_amount p)
              \<and> \<bar>advance_amount p + balance_amount p - total_amount p\<bar>
                  \<le> max (\<bar>total_amount p - advance_amount p\<bar> / 2 ^ 53) (power_int 2 (- 1075))
              \<and> (total_amount p \<le> 10 ^ 12 \<longrightarrow>
                   \<bar>advance_amount p + balance_amount p - total_amount p\<bar> < 1 / 200))
         \<and> balance_amount (accept_full d) = 0
         \<and> payment_type (accept_full d) = Some ''full''
         \<and> dialog_code (accept_full d) = Some Accepted
         \<and> advance_amount (accept_full d) + balance_amount (accept_full d)
             = total_amount (accept_full d)"
proof -
  have o: "dialog_code (init_dialog t day) = None" by (simp add: init_dialog_def)
  from exec_dialog_plan [OF init_dialog_inv o, of evs] assms
  have plan: "total_amount p = t
      \<and> (payment_type p = Some ''full'' \<and> advance_amount p = t \<and> balance_amount p = 0
         \<or> payment_type p = Some ''advance'' \<and> 0 < advance_amount p \<and> advance_amount p \<le> t
           \<and> balance_amount p = float_round (t - advance_amount p) \<and> day \<le> due_date p)"
    by simp
  then have t: "total_amount p = t" by simp
  from plan have kinds: "payment_type p = Some ''full'' \<or> payment_type p = Some ''advance''"
    by blast
  from plan have full: "payment_type p = Some ''full'' \<longrightarrow>
      balance_amount p = 0 \<and> advance_amount p + balance_amount p = total_amount p"
    by auto
  have adv: "payment_type p = Some ''advance'' \<longrightarrow>
      balance_amount p = float_round (total_amount p - advance_amount p)
      \<and> \<bar>advance_amount p + balance_amount p - total_amount p\<bar>
          \<le> max (\<bar>total_amount p - advance_amount p\<bar> / 2 ^ 53) (power_int 2 (- 1075))
      \<and> (total_amount p \<le> 10 ^ 12 \<longrightarrow>
           \<bar>advance_amount p + balance_amount p - total_amount p\<bar> < 1 / 200)"
  proof
    assume a: "payment_type p = Some ''advance''"
    with plan have pos: "0 < advance_amount p" and le: "advance_amount p \<le> t"
      and b: "balance_amount p = float_round (t - advance_amount p)"
      by auto
    let ?x = "t - advance_amount p"
    have s: "advance_amount p + balance_amount p - t = float_round ?x - ?x"
      by (simp add: b)
    have one: "\<bar>advance_amount p + balance_amount p - total_amount p\<bar>
        \<le> max (\<bar>total_amount p - advance_amount p\<bar> / 2 ^ 53) (power_int 2 (- 1075))"
      unfolding t s by (rule float_round_error)
    have two: "total_amount p \<le> 10 ^ 12 \<longrightarrow>
        \<bar>advance_amount p + balance_amount p - total_amount p\<bar> < 1 / 200"
    proof
      assume "total_amount p \<le> 10 ^ 12"
      with t pos le have "\<bar>?x\<bar> \<le> 10 ^ 12" by simp
      then show "\<bar>advance_amount p + balance_amount p - total_amount p\<bar> < 1 / 200"
        unfolding t s by (rule float_round_cent)
    qed
    from b one two show "balance_amount p = float_round (total_amount p - advance_amount p)
      \<and> \<bar>advance_amount p + balance_amount p - total_amount p\<bar>
          \<le> max (\<bar>total_amount p - advance_amount p\<bar> / 2 ^ 53) (power_int 2 (- 1075))
      \<and> (total_amount p \<le> 10 ^ 12 \<longrightarrow>
           \<bar>advance_amount p + balance_amount p - total_amount p\<bar> < 1 / 200)"
      unfolding t by (intro conjI)
  qed
  have f: "balance_amount (accept_full d) = 0 \<and> payment_type (accept_full d) = Some ''full''
        \<and> dialog_code (accept_full d) = Some Accepted
        \<and> advance_amount (accept_full d) + balance_amount (accept_full d)
             = total_amount (accept_full d)"
    by (simp add: accept_full_def)
  from t kinds full adv f show ?thesis by (intro conjI) (elim conjE, assumption)+
qed

lemma plan_600:
  "dialog_code (exec_dialog (init_dialog 1500 100) [AdvanceValueChanged 600, ProceedClicked])
     = Some Accepted"
  "payment_type (exec_dialog (init_dialog 1500 100) [AdvanceValueChanged 600, ProceedClicked])
     = Some ''advance''"
  "total_amount (exec_dialog (init_dialog 1500 100) [AdvanceValueChanged 600, ProceedClicked])
     = 1500"
  "dialog_code (exec_dialog (init_dialog 1500 100) [FullClicked]) = Some Accepted"
  "payment_type (exec_dialog (init_dialog 1500 100) [FullClicked]) = Some ''full''"
  by (simp_all add: dialog_defs Let_def float_round_examples)

text \<open>
  C8, amended, at a total of 1500: an advance of 600 entered and accepted, and the total
  paid in full.
\<close>

theorem payment_split_closure_witness:
  "dialog_code (exec_dialog (init_dialog 1500 100) [AdvanceValueChanged 600, ProceedClicked])
     = Some Accepted
   \<and> payment_type (exec_dialog (init_dialog 1500 100) [AdvanceValueChanged 600, ProceedClicked])
       = Some ''advance''
   \<and> \<bar>advance_amount (exec_dialog (init_dialog 1500 100)
          [AdvanceValueChanged 600, ProceedClicked])
       + balance_amount (exec_dialog (init_dialog 1500 100)
          [AdvanceValueChanged 600, ProceedClicked])
       - total_amount (exec_dialog (init_dialog 1500 100)
          [AdvanceValueChanged 600, ProceedClicked])\<bar> < 1 / 200
   \<and> dialog_code (exec_dialog (init_dialog 1500 100) [FullClicked]) = Some Accepted
   \<and> payment_type (exec_dialog (init_dialog 1500 100) [FullClicked]) = Some ''full''
   \<and> balance_amount (exec_dialog (init_dialog 1500 100) [FullClicked]) = 0"
proof -
  let ?p = "exec_dialog (init_dialog 1500 100) [AdvanceValueChanged 600, ProceedClicked]"
  let ?f = "exec_dialog (init_dialog 1500 100) [FullClicked]"
  note a = payment_split_closure [OF refl plan_600(1), of "init_dialog 1500 100"]
  note b = payment_split_closure [OF refl plan_600(4), of "init_dialog 1500 100"]
  from a [THEN conjunct2, THEN conjunct2, THEN conjunct2, THEN conjunct1] plan_600(2)
  have "balance_amount ?p = float_round (total_amount ?p - advance_amount ?p)
      \<and> \<bar>advance_amount ?p + balance_amount ?p - total_amount ?p\<bar>
          \<le> max (\<bar>total_amount ?p - advance_amount ?p\<bar> / 2 ^ 53) (power_int 2 (- 1075))
      \<and> (total_amount ?p \<le> 10 ^ 12 \<longrightarrow>
           \<bar>advance_amount ?p + balance_amount ?p - total_amount ?p\<bar> < 1 / 200)"
    by (rule mp)
  then have "total_amount ?p \<le> 10 ^ 12 \<longrightarrow>
      \<bar>advance_amount ?p + balance_amount ?p - total_amount ?p\<bar> < 1 / 200"
    by (elim conjE)
  moreover have "total_amount ?p \<le> 10 ^ 12" unfolding plan_600(3) by simp
  ultimately have cent: "\<bar>advance_amount ?p + balance_amount ?p - total_amount ?p\<bar> < 1 / 200"
    by (rule mp)
  from b [THEN conjunct2, THEN conjunct2, THEN conjunct1] plan_600(5)
  have "balance_amount ?f = 0 \<and> advance_amount ?f + balance_amount ?f = total_amount ?f"
    by (rule mp)
  then have zero: "balance_amount ?f = 0" by (rule conjunct1)
  show ?thesis
    using plan_600(1) plan_600(2) cent plan_600(4) plan_600(5) zero by (intro conjI)
qed

text \<open>
  C9. In every state the dialog can be in while it is open, "Process Advance Payment"
  fails with the "Invalid Amount" warning, leaving the dialog as it is, when
  \<open>advance_amount <= 0\<close> or \<open>advance_amount > total\<close>; the second case does not arise
  with a positive advance, because the amount field keeps its value within
  \<open>0 .. total\<close>. A due date before today does not arise either: the date field never
  shows a date before the day the dialog was opened, so no plan reaches the check with a
  positive balance and a past due date. Otherwise the plan is accepted with the kind
  \<open>"advance"\<close>, the due date of the date field, and \<open>balance_amount\<close> equal to the
  difference \<open>total - advance_amount\<close> as Python computes it.
\<close>

theorem advance_plan_creation:
  assumes "d = foldl handle_event (init_dialog t day) evs" and "dialog_code d = None"
  shows "(advance_amount d \<le> 0 \<or> total_amount d < advance_amount d \<longrightarrow>
            accept_advance d = (True, d))
         \<and> \<not> (0 < advance_amount d \<and> total_amount d < advance_amount d)
         \<and> \<not> (0 < balance_amount d \<and> due_date_edit d < day)
         \<and> (\<not> (advance_amount d \<le> 0 \<or> total_amount d < advance_amount d) \<longrightarrow>
              accept_advance d
                = (False, d\<lparr>due_date := due_date_edit d, payment_type := Some ''advance'',
                            dialog_code := Some Accepted\<rparr>)
              \<and> balance_amount d = float_round (total_amount d - advance_amount d)
              \<and> day \<le> due_date_edit d)"
proof -
  have "dialog_inv t day d"
    unfolding assms(1) using init_dialog_inv by (rule foldl_handle_event_inv)
  with assms(2) have t: "total_amount d = t" and date: "day \<le> due_date_edit d"
    and lo: "0 \<le> advance_spin d" and hi: "advance_spin d \<le> max 0 t"
    and spin: "advance_amount d = advance_spin d"
    and bal: "advance_amount d = 0 \<and> balance_amount d = t
              \<or> balance_amount d = float_round (t - advance_amount d)"
    by (auto simp: dialog_inv_def)
  from hi spin t have range: "0 < advance_amount d \<longrightarrow> advance_amount d \<le> total_amount d"
    by auto
  from range have one: "advance_amount d \<le> 0 \<or> total_amount d < advance_amount d \<longrightarrow>
      accept_advance d = (True, d)"
    by (auto simp: accept_advance_def)
  from range have two: "\<not> (0 < advance_amount d \<and> total_amount d < advance_amount d)"
    by auto
  from date have three: "\<not> (0 < balance_amount d \<and> due_date_edit d < day)"
    by simp
  from bal t date have four: "\<not> (advance_amount d \<le> 0 \<or> total_amount d < advance_amount d) \<longrightarrow>
      accept_advance d
        = (False, d\<lparr>due_date := due_date_edit d, payment_type := Some ''advance'',
                    dialog_code := Some Accepted\<rparr>)
      \<and> balance_amount d = float_round (total_amount d - advance_amount d)
      \<and> day \<le> due_date_edit d"
    by (auto simp: accept_advance_def)
  from one two three four show ?thesis by (intro conjI)
qed

text \<open>
  C9, at a total of 1500 in a dialog opened on day 100: nothing entered; an advance of 600
  entered; and an advance of 2000 and the due date 3 entered, which the fields keep at
  1500 and at day 100.
\<close>

theorem advance_plan_creation_witness:
  "accept_advance (foldl handle_event (init_dialog 1500 100) [])
     = (True, foldl handle_event (init_dialog 1500 100) [])
   \<and> fst (accept_advance (foldl handle_event (init_dialog 1500 100) [AdvanceValueChanged 600]))
       = False
   \<and> balance_amount (foldl handle_event (init_dialog 1500 100) [AdvanceValueChanged 600]) = 900
   \<and> advance_amount
        (foldl handle_event (init_dialog 1500 100) [AdvanceValueChanged 2000, DueDateEdited 3])
       = 1500
   \<and> due_date (snd (accept_advance
        (foldl handle_event (init_dialog 1500 100) [AdvanceValueChanged 2000, DueDateEdited 3])))
       = 100"
proof -
  let ?d0 = "foldl handle_event (init_dialog 1500 100) []"
  let ?d1 = "foldl handle_event (init_dialog 1500 100) [AdvanceValueChanged 600]"
  let ?d2 = "foldl handle_event (init_dialog 1500 100) [AdvanceValueChanged 2000, DueDateEdited 3]"
  have o: "dialog_code ?d0 = None" "dialog_code ?d1 = None" "dialog_code ?d2 = None"
    by (simp_all add: dialog_defs Let_def float_round_examples)
  have v: "advance_amount ?d0 \<le> 0 \<or> total_amount ?d0 < advance_amount ?d0"
    "\<not> (advance_amount ?d1 \<le> 0 \<or> total_amount ?d1 < advance_amount ?d1)"
    "\<not> (advance_amount ?d2 \<le> 0 \<or> total_amount ?d2 < advance_amount ?d2)"
    "advance_amount ?d1 = 600" "total_amount ?d1 = 1500"
    "advance_amount ?d2 = 1500" "due_date_edit ?d2 = 100"
    by (simp_all add: dialog_defs Let_def float_round_examples)
  note c0 = advance_plan_creation [OF refl o(1)]
  note c1 = advance_plan_creation [OF refl o(2)]
  note c2 = advance_plan_creation [OF refl o(3)]
  from c0 [THEN conjunct1] v(1) have one: "accept_advance ?d0 = (True, ?d0)" by (rule mp)
  from c1 [THEN conjunct2, THEN conjunct2, THEN conjunct2] v(2)
  have p1: "accept_advance ?d1
        = (False, ?d1\<lparr>due_date := due_date_edit ?d1, payment_type := Some ''advance'',
                    dialog_code := Some Accepted\<rparr>)
      \<and> balance_amount ?d1 = float_round (total_amount ?d1 - advance_amount ?d1)
      \<and> 100 \<le> due_date_edit ?d1"
    by (rule mp)
  from p1 [THEN conjunct1] have two: "fst (accept_advance ?d1) = False"
    by (rule arg_cong [where f = fst, THEN trans]) simp
  from p1 [THEN conjunct2, THEN conjunct1] have three: "balance_amount ?d1 = 900"
    unfolding v(4) v(5) by (simp add: float_round_examples)
  from c2 [THEN conjunct2, THEN conjunct2, THEN conjunct2] v(3)
  have p2: "accept_advance ?d2
        = (False, ?d2\<lparr>due_date := due_date_edit ?d2, payment_type := Some ''advance'',
                    dialog_code := Some Accepted\<rparr>)
      \<and> balance_amount ?d2 = float_round (total_amount ?d2 - advance_amount ?d2)
      \<and> 100 \<le> due_date_edit ?d2"
    by (rule mp)
  from p2 [THEN conjunct1] have "due_date (snd (accept_advance ?d2)) = due_date_edit ?d2"
    by (rule arg_cong [where f = "\<lambda>r. due_date (snd r)", THEN trans]) simp
  then have four: "due_date (snd (accept_advance ?d2)) = 100"
    unfolding v(7) .
  show ?thesis
    using one two three v(6) four by (intro conjI)
qed

section \<open>The payment method on the invoice\<close>

lemma render_and_commit_invoice:
  "render_and_commit env s args = (out, s') \<Longrightarrow> produced_invoice out = Some a \<Longrightarrow> a = args"
  by (auto simp: render_and_commit_def Let_def split: sum.splits option.splits)

lemma check_stock_no_invoice:
  "check_stock store items = Some out \<Longrightarrow> produced_invoice out = None"
  by (induction items) (auto simp: Let_def split: option.splits sum.splits if_splits)

lemma checkout_invoice_method:
  assumes "checkout env s = (out, s')" and "produced_invoice out = Some a"
  shows "inv_payment_method a = ''Full Payment''"
  using assms
  by (auto simp: checkout_def Let_def split: if_splits option.splits prod.splits
      dest!: render_and_commit_invoice check_stock_no_invoice)

lemma advance_invoice_method:
  assumes "process_advance_payment env s = (out, s')" and "produced_invoice out = Some a"
  shows "inv_payment_method a
    = payment_method (exec_dialog (init_dialog (cart_total (cart_items s)) (today env))
                        (dialog_events env))"
  using assms
  by (auto simp: process_advance_payment_def Let_def split: if_splits option.splits prod.splits
      dest!: render_and_commit_invoice check_stock_no_invoice)

text \<open>
  C10. An invoice produced by \<open>checkout\<close>, the full-payment method, records the payment
  method \<open>"Full Payment"\<close>, which is none of the five entries of the dialog's method box;
  an invoice produced by \<open>process_advance_payment\<close> records the method chosen in the
  dialog, one of the five.
\<close>

theorem full_payment_method_literal:
  "(checkout env s = (out, s') \<and> produced_invoice out = Some a \<longrightarrow>
      inv_payment_method a = ''Full Payment'')
   \<and> ''Full Payment'' \<notin> set payment_methods
   \<and> (process_advance_payment env s = (out, s') \<and> produced_invoice out = Some a \<longrightarrow>
        inv_payment_method a
          = payment_method (exec_dialog (init_dialog (cart_total (cart_items s)) (today env))
                              (dialog_events env))
        \<and> inv_payment_method a \<in> set payment_methods)"
proof -
  have "payment_method (init_dialog (cart_total (cart_items s)) (today env)) \<in> set payment_methods"
    by (simp add: init_dialog_def payment_methods_def)
  then have m: "payment_method (exec_dialog (init_dialog (cart_total (cart_items s)) (today env))
                  (dialog_events env)) \<in> set payment_methods"
    by (rule exec_dialog_method)
  have n: "''Full Payment'' \<notin> set payment_methods"
    by (simp add: payment_methods_def)
  show ?thesis
    using checkout_invoice_method [of env s out s' a] advance_invoice_method [of env s out s' a] m n
    by auto
qed

text \<open>
  C10, at a sale of one chair: paid by "Full Payment", and paid in advance with the
  fourth entry of the method box selected.
\<close>

theorem full_payment_method_literal_witness:
  "map_option inv_payment_method
      (produced_invoice (fst (checkout (example_env False None) (example_shop 1))))
     = Some ''Full Payment''
   \<and> map_option inv_payment_method
      (produced_invoice (fst (process_advance_payment
         ((example_env False None)
            \<lparr>dialog_events := [MethodIndexChanged 3, AdvanceValueChanged 50, ProceedClicked]\<rparr>)
         (example_shop 1))))
     = Some ''UPI''"
proof -
  let ?env = "(example_env False None)
            \<lparr>dialog_events := [MethodIndexChanged 3, AdvanceValueChanged 50, ProceedClicked]\<rparr>"
  let ?f = "checkout (example_env False None) (example_shop 1)"
  let ?g = "process_advance_payment ?env (example_shop 1)"
  note c = full_payment_method_literal
  have "produced_invoice (fst ?f) \<noteq> None"
    by (simp add: example_defs checkout_defs Let_def)
  then obtain a where a: "produced_invoice (fst ?f) = Some a" by blast
  have "?f = (fst ?f, snd ?f) \<and> produced_invoice (fst ?f) = Some a" using a by simp
  with c [of "example_env False None" "example_shop 1" "fst ?f" "snd ?f" a, THEN conjunct1]
  have one: "inv_payment_method a = ''Full Payment''" by (rule mp)
  have "produced_invoice (fst ?g) \<noteq> None"
    by (simp add: example_defs checkout_defs dialog_defs Let_def payment_methods_def
        float_round_examples)
  then obtain b where b: "produced_invoice (fst ?g) = Some b" by blast
  have "?g = (fst ?g, snd ?g) \<and> produced_invoice (fst ?g) = Some b" using b by simp
  with c [of ?env "example_shop 1" "fst ?g" "snd ?g" b, THEN conjunct2, THEN conjunct2]
  have "inv_payment_method b
          = payment_method (exec_dialog (init_dialog (cart_total (cart_items (example_shop 1)))
                              (today ?env)) (dialog_events ?env))
        \<and> inv_payment_method b \<in> set payment_methods" by (rule mp)
  then have two: "inv_payment_method b = ''UPI''"
    by (simp add: example_defs dialog_defs payment_methods_def cart_total_def Let_def
        float_round_examples)
  from a one b two show ?thesis by simp
qed

end
